theory Spec2Isabelle
  imports Complex_Main "HOL-Library.Word"
begin

section \<open>HandTrackingModule.py: the HandDetector adapter\<close>

text \<open>
  The module is one class, \<open>HandDetector\<close>, wrapping MediaPipe's hand-landmark engine and a
  few OpenCV calls. The embedding follows the Python method by method.
  \<^item> Python floats (normalised landmark coordinates, \<open>time.time()\<close> readings) are modelled
    as exact reals: rounding error, NaN and infinities are outside the model.
  \<^item> Python lists that mix integers, floats and strings are lists of \<open>pyval\<close>.
  \<^item> A numpy image is its \<open>shape\<close> tuple and its row-major byte buffer; images live in a
    store addressed by object identity, so that copying and in-place drawing can be told
    apart.
  \<^item> Every \<open>raise\<close> is a value \<open>Inl e\<close>; a method returns its result together with the
    adapter and the store as they are when it returns or raises.
\<close>

subsection \<open>Python values and errors\<close>

datatype error =
    ValueError          \<comment> \<open>unpacking a shape tuple of the wrong length\<close>
  | IndexError          \<comment> \<open>list index out of range\<close>
  | ZeroDivisionError   \<comment> \<open>float division by zero\<close>
  | AttributeError      \<comment> \<open>the image argument is not an array of the store\<close>
  | Cv2Error            \<comment> \<open>raised by an OpenCV call\<close>
  | EngineError         \<comment> \<open>raised by the MediaPipe engine or its drawing utility\<close>

datatype pyval = PInt int | PFloat real | PStr string

text \<open>Python's \<open>int(f)\<close> on a float truncates towards zero.\<close>

definition py_int :: "real \<Rightarrow> int" where
  "py_int r = (if 0 \<le> r then \<lfloor>r\<rfloor> else \<lceil>r\<rceil>)"

text \<open>Truth value of an attribute that is \<open>None\<close> or a list: only a non-empty list is true.\<close>

definition truthy :: "'a list option \<Rightarrow> bool" where
  "truthy v = (case v of None \<Rightarrow> False | Some xs \<Rightarrow> xs \<noteq> [])"

text \<open>\<open>xs[i]\<close>: a negative index counts from the end, anything out of range raises.\<close>

definition py_index :: "'a list \<Rightarrow> int \<Rightarrow> error + 'a" where
  "py_index xs i =
     (if 0 \<le> i then (if i < int (length xs) then Inr (xs ! nat i) else Inl IndexError)
      else (if - int (length xs) \<le> i then Inr (xs ! nat (int (length xs) + i))
            else Inl IndexError))"

subsection \<open>Images and the object store\<close>

record image =
  shape :: "nat list"
  buf :: "8 word list"

type_synonym addr = nat
type_synonym heap = "image list"

definition lookup :: "heap \<Rightarrow> addr \<Rightarrow> error + image" where
  "lookup hp a = (if a < length hp then Inr (hp ! a) else Inl AttributeError)"

definition alloc :: "heap \<Rightarrow> image \<Rightarrow> addr \<times> heap" where
  "alloc hp v = (length hp, hp @ [v])"

text \<open>\<open>h, w, c = img.shape\<close>: the unpacking raises unless the shape has three entries.\<close>

definition unpack_shape :: "image \<Rightarrow> error + (nat \<times> nat \<times> nat)" where
  "unpack_shape img =
     (case shape img of [h, w, c] \<Rightarrow> Inr (h, w, c) | _ \<Rightarrow> Inl ValueError)"

subsection \<open>The engine's result and the adapter\<close>

record landmark =
  lm_x :: real
  lm_y :: real
  lm_z :: real

record classification =
  label :: string
  score :: real

text \<open>
  MediaPipe's \<open>SolutionOutputs\<close>: \<open>multi_hand_landmarks\<close> is \<open>None\<close> or a list with one
  landmark list per hand, \<open>multi_handedness\<close> is \<open>None\<close> or a list with one classification
  list per hand.
\<close>

record solution_outputs =
  multi_hand_landmarks :: "landmark list list option"
  multi_handedness :: "classification list list option"

text \<open>
  The external collaborators: the engine's constructor and per-frame inference (which may
  keep tracking state of type \<open>'e\<close> and may raise), MediaPipe's skeleton drawing and
  OpenCV's filled circle. The drawing calls write into the array they are given and
  cannot change its shape, so they return the new buffer.
\<close>

record 'e externals =
  Hands :: "bool \<Rightarrow> int \<Rightarrow> real \<Rightarrow> real \<Rightarrow> 'e"
  process :: "'e \<Rightarrow> image \<Rightarrow> (error + solution_outputs) \<times> 'e"
  draw_landmarks :: "image \<Rightarrow> landmark list \<Rightarrow> error + 8 word list"
  circle :: "image \<Rightarrow> int \<times> int \<Rightarrow> int \<Rightarrow> error + 8 word list"

record 'e HandDetector =
  mode :: bool
  max_hands :: int
  detection_conf :: real
  tracking_conf :: real
  hands :: 'e
  results :: "solution_outputs option"
  prev_time :: real
  current_time :: real
  fps :: int

definition init :: "'e externals \<Rightarrow> bool \<Rightarrow> int \<Rightarrow> real \<Rightarrow> real \<Rightarrow> 'e HandDetector" where
  "init ext mode_arg max_hands_arg detection_confidence tracking_confidence =
     \<lparr>mode = mode_arg, max_hands = max_hands_arg,
      detection_conf = detection_confidence, tracking_conf = tracking_confidence,
      hands = Hands ext mode_arg max_hands_arg detection_confidence tracking_confidence,
      results = None, prev_time = 0, current_time = 0, fps = 0\<rparr>"

subsection \<open>update_fps\<close>

text \<open>Float division raises on a zero divisor.\<close>

definition py_div :: "real \<Rightarrow> real \<Rightarrow> error + real" where
  "py_div a b = (if b = 0 then Inl ZeroDivisionError else Inr (a / b))"

text \<open>
  \<open>now\<close> is the reading \<open>time.time()\<close> returns in this call. The division raises when the
  clock has not advanced since a previous call; \<open>current_time\<close> is already assigned then.
\<close>

definition update_fps :: "real \<Rightarrow> 'e HandDetector \<Rightarrow> (error + int) \<times> 'e HandDetector" where
  "update_fps now self =
     (let self1 = self\<lparr>current_time := now\<rparr> in
      case (if prev_time self1 > 0 then py_div 1 (current_time self1 - prev_time self1)
            else Inr 0) of
        Inl e \<Rightarrow> (Inl e, self1)
      | Inr fps_val \<Rightarrow>
          (let self2 = self1\<lparr>prev_time := current_time self1\<rparr>;
               self3 = self2\<lparr>fps := py_int fps_val\<rparr>
           in (Inr (fps self3), self3)))"

subsection \<open>OpenCV calls used by find_hands\<close>

text \<open>\<open>split_rows k n xs\<close> cuts the first \<open>k\<close> blocks of \<open>n\<close> entries off a flat buffer.\<close>

primrec split_rows :: "nat \<Rightarrow> nat \<Rightarrow> 'a list \<Rightarrow> 'a list list" where
  "split_rows 0 n xs = []"
| "split_rows (Suc k) n xs = take n xs # split_rows k n (drop n xs)"

text \<open>
  \<open>cv2.flip(src, 1)\<close> returns a new array of the same shape in which every row has its
  pixels in reverse order (a pixel is a block of \<open>c\<close> channel bytes; a two-dimensional
  array has one channel).
\<close>

definition flip_row :: "nat \<Rightarrow> nat \<Rightarrow> 'a list \<Rightarrow> 'a list" where
  "flip_row w c row = concat (rev (split_rows w c row))"

definition flip_rows :: "nat \<Rightarrow> nat \<Rightarrow> nat \<Rightarrow> 'a list \<Rightarrow> 'a list" where
  "flip_rows h w c xs = concat (map (flip_row w c) (split_rows h (w * c) xs))"

definition cv2_flip :: "image \<Rightarrow> error + image" where
  "cv2_flip src =
     (case shape src of
        [h, w] \<Rightarrow> Inr (src\<lparr>buf := flip_rows h w 1 (buf src)\<rparr>)
      | [h, w, c] \<Rightarrow> Inr (src\<lparr>buf := flip_rows h w c (buf src)\<rparr>)
      | _ \<Rightarrow> Inl Cv2Error)"

text \<open>
  \<open>cv2.cvtColor(src, cv2.COLOR_BGR2RGB)\<close> returns a new three-channel array with the blue
  and red bytes of every pixel exchanged; it raises on an empty array and on one that has
  neither three nor four channels.
\<close>

definition cvtColor_BGR2RGB :: "image \<Rightarrow> error + image" where
  "cvtColor_BGR2RGB src =
     (case shape src of
        [h, w, c] \<Rightarrow>
          (if buf src = [] \<or> (c \<noteq> 3 \<and> c \<noteq> 4) then Inl Cv2Error
           else Inr \<lparr>shape = [h, w, 3],
                     buf = concat (map (\<lambda>p. rev (take 3 p)) (split_rows (h * w) c (buf src)))\<rparr>)
      | _ \<Rightarrow> Inl Cv2Error)"

subsection \<open>find_hands\<close>

text \<open>The \<open>for hand_landmarks in ...\<close> loop: each call draws into the array at \<open>img_output\<close>.\<close>

fun draw_loop :: "'e externals \<Rightarrow> addr \<Rightarrow> landmark list list \<Rightarrow> heap \<Rightarrow> error option \<times> heap" where
  "draw_loop ext img_output [] hp = (None, hp)"
| "draw_loop ext img_output (hand_landmarks # rest) hp =
     (case draw_landmarks ext (hp ! img_output) hand_landmarks of
        Inl e \<Rightarrow> (Some e, hp)
      | Inr b \<Rightarrow> draw_loop ext img_output rest (hp[img_output := (hp ! img_output)\<lparr>buf := b\<rparr>]))"

text \<open>
  \<open>img.copy()\<close> and \<open>cv2.flip\<close> each create a new array; \<open>img_rgb\<close> is a temporary that only
  the engine reads. The engine's result object is a named tuple with fields, hence true
  in a condition, so \<open>self.results and ...\<close> only tests the landmark list once it is set.
\<close>

definition find_hands ::
  "'e externals \<Rightarrow> 'e HandDetector \<Rightarrow> heap \<Rightarrow> addr \<Rightarrow> bool \<Rightarrow> bool
     \<Rightarrow> (error + addr) \<times> 'e HandDetector \<times> heap" where
  "find_hands ext self hp img draw flip_type =
     (case lookup hp img of
        Inl e \<Rightarrow> (Inl e, self, hp)
      | Inr src \<Rightarrow>
          (let (img_copy, hp1) = alloc hp src in
           case (if flip_type
                 then (case cv2_flip (hp1 ! img_copy) of
                         Inl e \<Rightarrow> Inl e
                       | Inr flipped \<Rightarrow> Inr (alloc hp1 flipped))
                 else Inr (img_copy, hp1)) of
             Inl e \<Rightarrow> (Inl e, self, hp1)
           | Inr (img_output, hp2) \<Rightarrow>
               (case cvtColor_BGR2RGB (hp2 ! img_output) of
                  Inl e \<Rightarrow> (Inl e, self, hp2)
                | Inr img_rgb \<Rightarrow>
                    (case process ext (hands self) img_rgb of
                       (Inl e, eng) \<Rightarrow> (Inl e, self\<lparr>hands := eng\<rparr>, hp2)
                     | (Inr res, eng) \<Rightarrow>
                         (let self1 = self\<lparr>hands := eng, results := Some res\<rparr> in
                          case multi_hand_landmarks res of
                            None \<Rightarrow> (Inr img_output, self1, hp2)
                          | Some hs \<Rightarrow>
                              (if hs \<noteq> [] \<and> draw then
                                 (case draw_loop ext img_output hs hp2 of
                                    (Some e, hp3) \<Rightarrow> (Inl e, self1, hp3)
                                  | (None, hp3) \<Rightarrow> (Inr img_output, self1, hp3))
                               else (Inr img_output, self1, hp2)))))))"

subsection \<open>find_positions\<close>

text \<open>
  The handedness label of hand \<open>hand_idx\<close>: \<open>"Right"\<close> unless \<open>multi_handedness\<close> is a
  non-empty list, in which case \<open>multi_handedness[hand_idx].classification[0].label\<close>.
\<close>

definition hand_type_of :: "solution_outputs \<Rightarrow> nat \<Rightarrow> error + string" where
  "hand_type_of res hand_idx =
     (case multi_handedness res of
        None \<Rightarrow> Inr ''Right''
      | Some mh \<Rightarrow>
          (if mh = [] then Inr ''Right''
           else (case py_index mh (int hand_idx) of
                   Inl e \<Rightarrow> Inl e
                 | Inr cls \<Rightarrow>
                     (case py_index cls 0 of
                        Inl e \<Rightarrow> Inl e
                      | Inr cl \<Rightarrow> Inr (label cl)))))"

fun landmarks_loop ::
  "nat \<Rightarrow> nat \<Rightarrow> string \<Rightarrow> (nat \<times> landmark) list \<Rightarrow> pyval list list \<Rightarrow> pyval list list" where
  "landmarks_loop h w hand_type [] hand_landmarks_list = hand_landmarks_list"
| "landmarks_loop h w hand_type ((lm_idx, lm) # rest) hand_landmarks_list =
     (let px = py_int (lm_x lm * real w); py = py_int (lm_y lm * real h) in
      landmarks_loop h w hand_type rest
        (hand_landmarks_list @
           [[PInt (int lm_idx), PInt px, PInt py, PFloat (lm_z lm), PStr hand_type]]))"

fun hands_loop ::
  "solution_outputs \<Rightarrow> nat \<Rightarrow> nat \<Rightarrow> (nat \<times> landmark list) list \<Rightarrow> pyval list list list
     \<Rightarrow> error + pyval list list list" where
  "hands_loop res h w [] all_hands = Inr all_hands"
| "hands_loop res h w ((hand_idx, hand_landmarks) # rest) all_hands =
     (case hand_type_of res hand_idx of
        Inl e \<Rightarrow> Inl e
      | Inr hand_type \<Rightarrow>
          hands_loop res h w rest
            (all_hands @ [landmarks_loop h w hand_type (enumerate 0 hand_landmarks) []]))"

definition find_positions ::
  "'e HandDetector \<Rightarrow> heap \<Rightarrow> addr
     \<Rightarrow> (error + pyval list list list) \<times> 'e HandDetector \<times> heap" where
  "find_positions self hp img =
     (case lookup hp img of
        Inl e \<Rightarrow> (Inl e, self, hp)
      | Inr im \<Rightarrow>
          (case unpack_shape im of
             Inl e \<Rightarrow> (Inl e, self, hp)
           | Inr (h, w, c) \<Rightarrow>
               (case results self of
                  None \<Rightarrow> (Inr [], self, hp)
                | Some res \<Rightarrow>
                    (case multi_hand_landmarks res of
                       None \<Rightarrow> (Inr [], self, hp)
                     | Some hs \<Rightarrow>
                         (if hs \<noteq> [] then (hands_loop res h w (enumerate 0 hs) [], self, hp)
                          else (Inr [], self, hp))))))"

subsection \<open>find_position\<close>

text \<open>
  The loop reads \<open>img.shape\<close> in every round and, when \<open>draw\<close> is set, lets \<open>cv2.circle\<close>
  write into the caller's array itself.
\<close>

fun position_loop ::
  "'e externals \<Rightarrow> addr \<Rightarrow> bool \<Rightarrow> int \<Rightarrow> (nat \<times> landmark) list \<Rightarrow> pyval list list \<Rightarrow> heap
     \<Rightarrow> (error + pyval list list) \<times> heap" where
  "position_loop ext img draw draw_radius [] landmark_list hp = (Inr landmark_list, hp)"
| "position_loop ext img draw draw_radius ((idx, lm) # rest) landmark_list hp =
     (case lookup hp img of
        Inl e \<Rightarrow> (Inl e, hp)
      | Inr im \<Rightarrow>
          (case unpack_shape im of
             Inl e \<Rightarrow> (Inl e, hp)
           | Inr (h, w, c) \<Rightarrow>
               (let px = py_int (lm_x lm * real w); py = py_int (lm_y lm * real h);
                    landmark_list1 = landmark_list @ [[PInt (int idx), PInt px, PInt py]]
                in if draw then
                     (case circle ext im (px, py) draw_radius of
                        Inl e \<Rightarrow> (Inl e, hp)
                      | Inr b \<Rightarrow>
                          position_loop ext img draw draw_radius rest landmark_list1
                            (hp[img := im\<lparr>buf := b\<rparr>]))
                   else position_loop ext img draw draw_radius rest landmark_list1 hp)))"

definition find_position ::
  "'e externals \<Rightarrow> 'e HandDetector \<Rightarrow> heap \<Rightarrow> addr \<Rightarrow> int \<Rightarrow> bool \<Rightarrow> int
     \<Rightarrow> (error + pyval list list) \<times> 'e HandDetector \<times> heap" where
  "find_position ext self hp img hand_no draw draw_radius =
     (case results self of
        None \<Rightarrow> (Inr [], self, hp)
      | Some res \<Rightarrow>
          (case multi_hand_landmarks res of
             None \<Rightarrow> (Inr [], self, hp)
           | Some hs \<Rightarrow>
               (if hs \<noteq> [] then
                  (if hand_no < int (length hs) then
                     (case py_index hs hand_no of
                        Inl e \<Rightarrow> (Inl e, self, hp)
                      | Inr hand \<Rightarrow>
                          (case position_loop ext img draw draw_radius (enumerate 0 hand) [] hp of
                             (r, hp1) \<Rightarrow> (r, self, hp1)))
                   else (Inr [], self, hp))
                else (Inr [], self, hp))))"

subsection \<open>Notions used in the statements\<close>

text \<open>The hands of the stored result: none when no result is stored or its list is \<open>None\<close>.\<close>

definition detected_hands :: "'e HandDetector \<Rightarrow> landmark list list" where
  "detected_hands self =
     (case results self of
        None \<Rightarrow> []
      | Some res \<Rightarrow> (case multi_hand_landmarks res of None \<Rightarrow> [] | Some hs \<Rightarrow> hs))"

text \<open>
  The engine reports handedness per hand: when \<open>multi_handedness\<close> is a non-empty list it
  has an entry for every detected hand, each with at least one classification. (The code
  relies on this; a shorter list makes \<open>find_positions\<close> raise \<open>IndexError\<close>.)
\<close>

definition handedness_ok :: "'e HandDetector \<Rightarrow> bool" where
  "handedness_ok self =
     (case results self of
        None \<Rightarrow> True
      | Some res \<Rightarrow>
          (case multi_handedness res of
             None \<Rightarrow> True
           | Some mh \<Rightarrow>
               mh = [] \<or>
               (length (detected_hands self) \<le> length mh
                \<and> list_all (\<lambda>cls. cls \<noteq> []) (take (length (detected_hands self)) mh))))"

text \<open>A numpy array's buffer holds exactly as many entries as its shape says.\<close>

definition wf_image :: "image \<Rightarrow> bool" where
  "wf_image im = (length (buf im) = prod_list (shape im))"

text \<open>
  \<open>img[i, j, k]\<close> on a three-dimensional array, read from the row-major buffer; it is used
  below only within the array's bounds.
\<close>

definition pixel :: "image \<Rightarrow> nat \<Rightarrow> nat \<Rightarrow> nat \<Rightarrow> 8 word" where
  "pixel im i j k =
     (case shape im of [h, w, c] \<Rightarrow> buf im ! ((i * w + j) * c + k) | _ \<Rightarrow> 0)"

text \<open>
  \<open>dst\<close> is the horizontal mirror image of \<open>src\<close>: same shape, and column \<open>j\<close> of every row
  of \<open>dst\<close> holds the pixel that column \<open>w - 1 - j\<close> of that row holds in \<open>src\<close>.
\<close>

definition mirrored :: "image \<Rightarrow> image \<Rightarrow> bool" where
  "mirrored src dst =
     (case shape src of
        [h, w, c] \<Rightarrow>
          shape dst = [h, w, c] \<and> length (buf dst) = length (buf src)
          \<and> (\<forall>i < h. \<forall>j < w. \<forall>k < c. pixel dst i j k = pixel src i (w - 1 - j) k)
      | _ \<Rightarrow> False)"

text \<open>
  What the drawing step of \<open>find_hands\<close> makes of an image: \<open>draw_landmarks\<close> applied hand
  after hand when drawing is requested and the stored result holds a hand, nothing
  otherwise.
\<close>

fun draw_all :: "'e externals \<Rightarrow> landmark list list \<Rightarrow> image \<Rightarrow> error + image" where
  "draw_all ext [] im = Inr im"
| "draw_all ext (hand_landmarks # rest) im =
     (case draw_landmarks ext im hand_landmarks of
        Inl e \<Rightarrow> Inl e
      | Inr b \<Rightarrow> draw_all ext rest (im\<lparr>buf := b\<rparr>))"

definition overlay :: "'e externals \<Rightarrow> bool \<Rightarrow> 'e HandDetector \<Rightarrow> image \<Rightarrow> error + image" where
  "overlay ext draw self im =
     (if draw \<and> detected_hands self \<noteq> [] then draw_all ext (detected_hands self) im
      else Inr im)"

subsection \<open>Sample inputs\<close>

text \<open>
  Two stand-ins for the external library: an engine that never finds a hand with drawing
  calls that leave the buffer as it is, and an engine that always reports one hand with
  drawing calls that paint every byte white.
\<close>

definition centre_hand :: "landmark list" where
  "centre_hand = replicate 21 \<lparr>lm_x = 1/2, lm_y = 1/2, lm_z = 0\<rparr>"

definition edge_hand :: "landmark list" where
  "edge_hand = replicate 21 \<lparr>lm_x = 1, lm_y = 1/2, lm_z = 0\<rparr>"

definition demo_externals :: "unit externals" where
  "demo_externals =
     \<lparr>Hands = (\<lambda>_ _ _ _. ()),
      process = (\<lambda>e im. (Inr \<lparr>multi_hand_landmarks = None, multi_handedness = None\<rparr>, e)),
      draw_landmarks = (\<lambda>im _. Inr (buf im)),
      circle = (\<lambda>im _ _. Inr (buf im))\<rparr>"

definition painting_externals :: "unit externals" where
  "painting_externals =
     \<lparr>Hands = (\<lambda>_ _ _ _. ()),
      process = (\<lambda>e im. (Inr \<lparr>multi_hand_landmarks = Some [centre_hand], multi_handedness = None\<rparr>, e)),
      draw_landmarks = (\<lambda>im _. Inr (map (\<lambda>_. 255) (buf im))),
      circle = (\<lambda>im _ _. Inr (map (\<lambda>_. 255) (buf im)))\<rparr>"

text \<open>
  A third stand-in: the engine reports one hand, drawing marks the first byte of the
  buffer, and \<open>circle\<close> raises on a negative radius and on a centre beyond the 32-bit range.
\<close>

definition marking_externals :: "unit externals" where
  "marking_externals =
     \<lparr>Hands = (\<lambda>_ _ _ _. ()),
      process = (\<lambda>e im. (Inr \<lparr>multi_hand_landmarks = Some [centre_hand], multi_handedness = None\<rparr>, e)),
      draw_landmarks = (\<lambda>im _. Inr ((buf im)[0 := 255])),
      circle = (\<lambda>im centre r.
                  if r < 0 \<or> 2 ^ 31 \<le> \<bar>fst centre\<bar> \<or> 2 ^ 31 \<le> \<bar>snd centre\<bar> then Inl Cv2Error
                  else Inr ((buf im)[0 := 255]))\<rparr>"

text \<open>A one-row, two-pixel BGR image, and an adapter whose stored result holds the given hands
  and no handedness data.\<close>

definition demo_image :: image where
  "demo_image = \<lparr>shape = [1, 2, 3], buf = [1, 2, 3, 4, 5, 6]\<rparr>"

definition demo_detector :: "landmark list list \<Rightarrow> unit HandDetector" where
  "demo_detector hs =
     (init demo_externals False 2 (1/2) (1/2))
       \<lparr>results := Some \<lparr>multi_hand_landmarks = Some hs, multi_handedness = None\<rparr>\<rparr>"

section \<open>Properties\<close>

subsection \<open>Helper facts\<close>

text \<open>Evaluating the OpenCV calls on the sample image.\<close>

lemma cv2_flip_demo:
  "cv2_flip demo_image = Inr \<lparr>shape = [1, 2, 3], buf = [4, 5, 6, 1, 2, 3]\<rparr>"
  by (simp add: cv2_flip_def demo_image_def flip_rows_def flip_row_def numeral_2_eq_2)

lemma cvtColor_demo:
  "cvtColor_BGR2RGB demo_image = Inr \<lparr>shape = [1, 2, 3], buf = [3, 2, 1, 6, 5, 4]\<rparr>"
  by (simp add: cvtColor_BGR2RGB_def demo_image_def numeral_2_eq_2 numeral_3_eq_3)

lemma detected_demo [simp]: "detected_hands (demo_detector hs) = hs"
  by (simp add: detected_hands_def demo_detector_def)

lemma handedness_demo [simp]: "handedness_ok (demo_detector hs)"
  by (simp add: handedness_ok_def demo_detector_def)

lemma demo_shape [simp]: "shape demo_image = [1, 2, 3]"
  by (simp add: demo_image_def)

text \<open>Truncation stays within one of any nearest integer.\<close>

lemma py_int_of_int [simp]: "py_int (real_of_int k) = k"
  by (simp add: py_int_def)

lemma py_int_near:
  fixes v :: real and r :: int
  assumes "\<bar>real_of_int r - v\<bar> \<le> 1/2"
  shows "\<bar>py_int v - r\<bar> \<le> 1"
  using assms unfolding py_int_def by (auto; linarith)

lemma py_int_range:
  assumes "0 \<le> x" and "x < 1" and "0 < n"
  shows "0 \<le> py_int (x * real n) \<and> py_int (x * real n) < int n"
proof -
  have nonneg: "0 \<le> x * real n" using assms by simp
  have "x * real n < real n" using assms by simp
  then have "\<lfloor>x * real n\<rfloor> < int n" by (simp add: floor_less_iff)
  with nonneg show ?thesis by (simp add: py_int_def)
qed

text \<open>Cutting a buffer into blocks and gluing the blocks together are inverse.\<close>

lemma length_split_rows [simp]: "length (split_rows k n xs) = k"
  by (induction k arbitrary: xs) auto

lemma concat_split_rows: "length xs = k * n \<Longrightarrow> concat (split_rows k n xs) = xs"
  by (induction k arbitrary: xs) auto

lemma split_rows_block_length:
  "length xs = k * n \<Longrightarrow> ys \<in> set (split_rows k n xs) \<Longrightarrow> length ys = n"
proof (induction k arbitrary: xs)
  case 0
  then show ?case by simp
next
  case (Suc k)
  from Suc.prems(1) have "length (drop n xs) = k * n" by simp
  with Suc.IH [of "drop n xs"] Suc.prems show ?case by auto
qed

lemma split_rows_concat:
  "(\<And>ys. ys \<in> set yss \<Longrightarrow> length ys = n) \<Longrightarrow> split_rows (length yss) n (concat yss) = yss"
  by (induction yss) auto

lemma length_concat_blocks:
  "(\<And>ys. ys \<in> set yss \<Longrightarrow> length ys = n) \<Longrightarrow> length (concat yss) = length yss * n"
  by (induction yss) auto

text \<open>Reversing the pixels of each row twice gives the buffer back.\<close>

lemma length_flip_row:
  assumes "length row = w * c"
  shows "length (flip_row w c row) = w * c"
proof -
  have "length (concat (rev (split_rows w c row))) = length (rev (split_rows w c row)) * c"
    by (rule length_concat_blocks) (use assms split_rows_block_length in auto)
  then show ?thesis by (simp add: flip_row_def)
qed

lemma flip_row_twice:
  assumes "length row = w * c"
  shows "flip_row w c (flip_row w c row) = row"
proof -
  have "split_rows (length (rev (split_rows w c row))) c (concat (rev (split_rows w c row)))
          = rev (split_rows w c row)"
    by (rule split_rows_concat) (use assms split_rows_block_length in auto)
  then have "split_rows w c (concat (rev (split_rows w c row))) = rev (split_rows w c row)"
    by simp
  then show ?thesis
    by (simp add: flip_row_def concat_split_rows assms)
qed

lemma split_rows_flipped:
  assumes "length xs = h * (w * c)"
  shows "split_rows h (w * c) (flip_rows h w c xs) = map (flip_row w c) (split_rows h (w * c) xs)"
proof -
  let ?rows = "split_rows h (w * c) xs"
  have len: "\<And>row. row \<in> set ?rows \<Longrightarrow> length row = w * c"
    using assms split_rows_block_length by blast
  have "split_rows (length (map (flip_row w c) ?rows)) (w * c) (concat (map (flip_row w c) ?rows))
          = map (flip_row w c) ?rows"
    by (rule split_rows_concat) (auto simp: length_flip_row len)
  then show ?thesis by (simp add: flip_rows_def)
qed

lemma flip_rows_twice:
  assumes "length xs = h * (w * c)"
  shows "flip_rows h w c (flip_rows h w c xs) = xs"
proof -
  let ?rows = "split_rows h (w * c) xs"
  have len: "\<And>row. row \<in> set ?rows \<Longrightarrow> length row = w * c"
    using assms split_rows_block_length by blast
  have "flip_rows h w c (flip_rows h w c xs) = concat (map (flip_row w c) (map (flip_row w c) ?rows))"
    by (simp add: flip_rows_def [of h w c "flip_rows h w c xs"] split_rows_flipped [OF assms])
  also have "map (flip_row w c) (map (flip_row w c) ?rows) = ?rows"
    by (simp add: map_idI flip_row_twice len)
  also have "concat ?rows = xs"
    by (rule concat_split_rows) (rule assms)
  finally show ?thesis .
qed

lemma length_flip_rows:
  assumes "length xs = h * (w * c)"
  shows "length (flip_rows h w c xs) = h * (w * c)"
proof -
  let ?rows = "split_rows h (w * c) xs"
  have len: "\<And>row. row \<in> set ?rows \<Longrightarrow> length row = w * c"
    using assms split_rows_block_length by blast
  have "length (concat (map (flip_row w c) ?rows)) = length (map (flip_row w c) ?rows) * (w * c)"
    by (rule length_concat_blocks) (auto simp: length_flip_row len)
  then show ?thesis by (simp add: flip_rows_def)
qed

lemma cv2_flip_shape: "cv2_flip src = Inr dst \<Longrightarrow> shape dst = shape src"
  by (auto simp: cv2_flip_def split: list.splits)

lemma cv2_flip_wf: "wf_image src \<Longrightarrow> cv2_flip src = Inr dst \<Longrightarrow> wf_image dst"
  by (auto simp: cv2_flip_def wf_image_def length_flip_rows split: list.splits)

lemma cv2_flip_twice: "wf_image src \<Longrightarrow> cv2_flip src = Inr dst \<Longrightarrow> cv2_flip dst = Inr src"
  by (auto simp: cv2_flip_def wf_image_def flip_rows_twice split: list.splits)

text \<open>Entry by entry, the flipped buffer holds each row's pixels in reverse order.\<close>

lemma nth_split_rows:
  "a < k \<Longrightarrow> split_rows k n xs ! a = take n (drop (a * n) xs)"
proof (induction k arbitrary: xs a)
  case 0
  then show ?case by simp
next
  case (Suc k)
  show ?case
  proof (cases a)
    case 0
    then show ?thesis by simp
  next
    case (Suc a')
    with Suc.prems have "a' < k" by simp
    from Suc.IH [OF this, of "drop n xs"] Suc show ?thesis
      by (simp add: add.commute)
  qed
qed

lemma nth_concat_blocks:
  assumes "\<And>ys. ys \<in> set yss \<Longrightarrow> length ys = n" and "a < length yss" and "b < n"
  shows "concat yss ! (a * n + b) = yss ! a ! b"
  using assms
proof (induction yss arbitrary: a)
  case Nil
  then show ?case by simp
next
  case (Cons ys yss)
  have len: "length ys = n" using Cons.prems(1) by simp
  show ?case
  proof (cases a)
    case 0
    with len Cons.prems(3) show ?thesis by (simp add: nth_append)
  next
    case (Suc a')
    with Cons.prems have "a' < length yss" by simp
    from Cons.IH [OF _ this Cons.prems(3)] Cons.prems(1)
    have "concat yss ! (a' * n + b) = yss ! a' ! b" by simp
    with len Suc show ?thesis by (simp add: nth_append)
  qed
qed

lemma nth_flip_row:
  assumes "length row = w * c" and "j < w" and "k < c"
  shows "flip_row w c row ! (j * c + k) = row ! ((w - 1 - j) * c + k)"
proof -
  let ?S = "split_rows w c row"
  have blocks: "\<And>ys. ys \<in> set (rev ?S) \<Longrightarrow> length ys = c"
    using assms(1) split_rows_block_length by fastforce
  have "flip_row w c row ! (j * c + k) = rev ?S ! j ! k"
    unfolding flip_row_def by (rule nth_concat_blocks [OF blocks]) (use assms in auto)
  also have "rev ?S ! j = ?S ! (w - 1 - j)"
    using assms(2) by (simp add: rev_nth)
  also have "?S ! (w - 1 - j) = take c (drop ((w - 1 - j) * c) row)"
    using assms(2) by (simp add: nth_split_rows)
  also have "take c (drop ((w - 1 - j) * c) row) ! k = row ! ((w - 1 - j) * c + k)"
  proof -
    have "(w - 1 - j) * c + c \<le> w * c"
    proof -
      have "(w - 1 - j) + 1 \<le> w" using assms(2) by simp
      then have "((w - 1 - j) + 1) * c \<le> w * c" by (rule mult_le_mono1)
      then show ?thesis by (simp add: algebra_simps)
    qed
    then show ?thesis using assms(1,3) by simp
  qed
  finally show ?thesis .
qed

lemma nth_flip_rows:
  assumes "length xs = h * (w * c)" and "i < h" and "j < w" and "k < c"
  shows "flip_rows h w c xs ! ((i * w + j) * c + k) = xs ! ((i * w + (w - 1 - j)) * c + k)"
proof -
  let ?rows = "split_rows h (w * c) xs"
  have len: "\<And>row. row \<in> set ?rows \<Longrightarrow> length row = w * c"
    using assms(1) split_rows_block_length by blast
  have blocks: "\<And>ys. ys \<in> set (map (flip_row w c) ?rows) \<Longrightarrow> length ys = w * c"
    by (auto simp: length_flip_row len)
  have jk: "j * c + k < w * c"
  proof -
    have "j * c + c \<le> w * c"
      using assms(3) by (metis Suc_leI mult_Suc mult_le_mono1 add.commute)
    with assms(4) show ?thesis by simp
  qed
  have mjk: "(w - 1 - j) * c + k < w * c"
  proof -
    have "(w - 1 - j) + 1 \<le> w" using assms(3) by simp
    then have "((w - 1 - j) + 1) * c \<le> w * c" by (rule mult_le_mono1)
    with assms(4) show ?thesis by (simp add: algebra_simps)
  qed
  have row_i: "?rows ! i = take (w * c) (drop (i * (w * c)) xs)"
    using assms(2) by (simp add: nth_split_rows)
  have rowlen: "length (?rows ! i) = w * c"
    using len assms(2) by simp
  have idx: "(i * w + j) * c + k = i * (w * c) + (j * c + k)"
    by (simp add: algebra_simps)
  have "flip_rows h w c xs ! ((i * w + j) * c + k)
        = concat (map (flip_row w c) ?rows) ! (i * (w * c) + (j * c + k))"
    unfolding flip_rows_def idx ..
  also have "\<dots> = map (flip_row w c) ?rows ! i ! (j * c + k)"
    by (rule nth_concat_blocks [OF blocks]) (use assms(2) jk in auto)
  also have "\<dots> = flip_row w c (?rows ! i) ! (j * c + k)"
    using assms(2) by simp
  also have "\<dots> = (?rows ! i) ! ((w - 1 - j) * c + k)"
    by (rule nth_flip_row [OF rowlen assms(3) assms(4)])
  also have "\<dots> = xs ! (i * (w * c) + ((w - 1 - j) * c + k))"
  proof -
    have "i * (w * c) \<le> length xs"
      using assms(1,2) by simp
    then show ?thesis using mjk by (simp add: row_i)
  qed
  also have "i * (w * c) + ((w - 1 - j) * c + k) = (i * w + (w - 1 - j)) * c + k"
    by (simp add: algebra_simps)
  finally show ?thesis .
qed

lemma cv2_flip_mirrored:
  assumes "wf_image src" and "shape src = [h, w, c]" and "cv2_flip src = Inr dst"
  shows "mirrored src dst"
proof -
  have len: "length (buf src) = h * (w * c)"
    using assms(1,2) by (simp add: wf_image_def)
  have dst: "dst = src\<lparr>buf := flip_rows h w c (buf src)\<rparr>"
    using assms(2,3) by (simp add: cv2_flip_def)
  show ?thesis
    using assms(2) len
    by (simp add: mirrored_def dst pixel_def length_flip_rows nth_flip_rows)
qed

text \<open>The drawing loop writes only at the address it is given.\<close>

lemma draw_loop_length: "length (snd (draw_loop ext a hs hp)) = length hp"
  by (induction hs arbitrary: hp) (auto split: sum.splits)

lemma draw_loop_take: "n \<le> a \<Longrightarrow> take n (snd (draw_loop ext a hs hp)) = take n hp"
  by (induction hs arbitrary: hp) (auto split: sum.splits)

lemma draw_loop_frame:
  assumes "draw_loop ext a hs (hp @ ys) = (r, hp')" and "length hp \<le> a"
  shows "take (length hp) hp' = hp \<and> length hp' = length hp + length ys"
proof -
  have "hp' = snd (draw_loop ext a hs (hp @ ys))"
    using assms(1) by simp
  then show ?thesis
    using assms(2) by (simp add: draw_loop_take draw_loop_length)
qed

lemma draw_loop_draw_all:
  assumes "a < length hp" and "draw_loop ext a hs hp = (None, hp1)"
  shows "draw_all ext hs (hp ! a) = Inr (hp1 ! a)"
  using assms
proof (induction hs arbitrary: hp)
  case Nil
  then show ?case by simp
next
  case (Cons hl hs)
  from Cons.prems(2) obtain b where
    b: "draw_landmarks ext (hp ! a) hl = Inr b"
    and rest: "draw_loop ext a hs (hp[a := (hp ! a)\<lparr>buf := b\<rparr>]) = (None, hp1)"
    by (auto split: sum.splits)
  have "a < length (hp[a := (hp ! a)\<lparr>buf := b\<rparr>])"
    using Cons.prems(1) by simp
  from Cons.IH [OF this rest] Cons.prems(1) b show ?case by simp
qed

lemma draw_all_wf:
  assumes "\<forall>im hl b. draw_landmarks ext im hl = Inr b \<longrightarrow> length b = length (buf im)"
    and "draw_all ext hs im = Inr im1"
  shows "shape im1 = shape im \<and> length (buf im1) = length (buf im)"
  using assms(2)
proof (induction hs arbitrary: im)
  case Nil
  then show ?case by simp
next
  case (Cons hl hs)
  from Cons.prems obtain b where
    b: "draw_landmarks ext im hl = Inr b"
    and rest: "draw_all ext hs (im\<lparr>buf := b\<rparr>) = Inr im1"
    by (auto split: sum.splits)
  from assms(1) b have "length b = length (buf im)" by blast
  with Cons.IH [OF rest] show ?case by simp
qed

lemma overlay_wf:
  assumes "\<forall>im hl b. draw_landmarks ext im hl = Inr b \<longrightarrow> length b = length (buf im)"
    and "overlay ext draw self im = Inr im1"
  shows "shape im1 = shape im \<and> length (buf im1) = length (buf im)"
  using assms draw_all_wf [OF assms(1)]
  by (auto simp: overlay_def split: if_splits)

text \<open>
  With flipping on, the array \<open>find_hands\<close> returns is the overlay drawn on the flip of its
  input.
\<close>

lemma find_hands_result:
  assumes "find_hands ext self hp img draw True = (Inr out, self1, hp1)"
  shows "img < length hp \<and> out < length hp1
       \<and> (\<exists>f. cv2_flip (hp ! img) = Inr f \<and> overlay ext draw self1 f = Inr (hp1 ! out))"
proof -
  from assms have img: "img < length hp"
    by (auto simp: find_hands_def lookup_def split: if_splits)
  from assms img obtain f where f: "cv2_flip (hp ! img) = Inr f"
    by (auto simp: find_hands_def lookup_def alloc_def nth_append split: sum.splits)
  let ?hp2 = "hp @ [hp ! img, f]"
  let ?out = "Suc (length hp)"
  from assms img f obtain rgb res eng where
    rgb: "cvtColor_BGR2RGB f = Inr rgb"
    and pr: "process ext (hands self) rgb = (Inr res, eng)"
    by (auto simp: find_hands_def lookup_def alloc_def nth_append Let_def split: sum.splits prod.splits)
  have self1: "results self1 = Some res \<and> out = ?out"
    using assms img f rgb pr
    by (auto simp: find_hands_def lookup_def alloc_def nth_append Let_def
          split: sum.splits prod.splits option.splits if_splits)
  have dh: "detected_hands self1 = (case multi_hand_landmarks res of None \<Rightarrow> [] | Some hs \<Rightarrow> hs)"
    using self1 by (simp add: detected_hands_def)
  show ?thesis
  proof (cases "draw \<and> detected_hands self1 \<noteq> []")
    case False
    then have "hp1 = ?hp2"
      using assms img f rgb pr dh
      by (auto simp: find_hands_def lookup_def alloc_def nth_append Let_def
            split: sum.splits prod.splits option.splits if_splits)
    with False img f self1 show ?thesis
      by (auto simp: overlay_def nth_append)
  next
    case True
    then obtain hs where hs: "multi_hand_landmarks res = Some hs" "hs \<noteq> []" "detected_hands self1 = hs"
      using dh by (auto split: option.splits)
    with True assms img f rgb pr have loop: "draw_loop ext ?out hs ?hp2 = (None, hp1)"
      by (auto simp: find_hands_def lookup_def alloc_def nth_append Let_def
            split: sum.splits prod.splits option.splits if_splits)
    have "?out < length ?hp2" by simp
    from draw_loop_draw_all [OF this loop]
    have "draw_all ext hs f = Inr (hp1 ! ?out)" by (simp add: nth_append)
    moreover have "length hp1 = length ?hp2"
      using draw_loop_length [of ext ?out hs ?hp2] loop by simp
    ultimately show ?thesis
      using True img f self1 hs by (auto simp: overlay_def)
  qed
qed

text \<open>Runs of \<open>find_hands\<close> on the sample image.\<close>

lemma demo_find_hands:
  "find_hands demo_externals (init demo_externals False 2 (1/2) (1/2)) [demo_image] 0 True True
     = (Inr 2, (init demo_externals False 2 (1/2) (1/2))
                  \<lparr>results := Some \<lparr>multi_hand_landmarks = None, multi_handedness = None\<rparr>\<rparr>,
        [demo_image, demo_image, \<lparr>shape = [1, 2, 3], buf = [4, 5, 6, 1, 2, 3]\<rparr>])"
  by (simp add: find_hands_def lookup_def alloc_def cv2_flip_def cvtColor_BGR2RGB_def demo_image_def
        flip_rows_def flip_row_def numeral_2_eq_2 numeral_3_eq_3 demo_externals_def init_def)

lemma marking_find_hands:
  "find_hands marking_externals (init marking_externals False 2 (1/2) (1/2)) [demo_image] 0 True True
     = (Inr 2,
        (init marking_externals False 2 (1/2) (1/2))
          \<lparr>results := Some \<lparr>multi_hand_landmarks = Some [centre_hand], multi_handedness = None\<rparr>\<rparr>,
        [demo_image, demo_image, \<lparr>shape = [1, 2, 3], buf = [255, 5, 6, 1, 2, 3]\<rparr>])"
  by (simp add: find_hands_def lookup_def alloc_def cv2_flip_def cvtColor_BGR2RGB_def demo_image_def
        flip_rows_def flip_row_def numeral_2_eq_2 numeral_3_eq_3 marking_externals_def init_def
        centre_hand_def)

lemma marking_find_hands_again:
  "find_hands marking_externals
     ((init marking_externals False 2 (1/2) (1/2))
        \<lparr>results := Some \<lparr>multi_hand_landmarks = Some [centre_hand], multi_handedness = None\<rparr>\<rparr>)
     [demo_image, demo_image, \<lparr>shape = [1, 2, 3], buf = [255, 5, 6, 1, 2, 3]\<rparr>] 2 True True
     = (Inr 4,
        (init marking_externals False 2 (1/2) (1/2))
          \<lparr>results := Some \<lparr>multi_hand_landmarks = Some [centre_hand], multi_handedness = None\<rparr>\<rparr>,
        [demo_image, demo_image, \<lparr>shape = [1, 2, 3], buf = [255, 5, 6, 1, 2, 3]\<rparr>,
         \<lparr>shape = [1, 2, 3], buf = [255, 5, 6, 1, 2, 3]\<rparr>,
         \<lparr>shape = [1, 2, 3], buf = [255, 2, 3, 255, 5, 6]\<rparr>])"
  by (simp add: find_hands_def lookup_def alloc_def cv2_flip_def cvtColor_BGR2RGB_def demo_image_def
        flip_rows_def flip_row_def numeral_2_eq_2 numeral_3_eq_3 marking_externals_def init_def
        centre_hand_def)

lemma painting_find_hands:
  "find_hands painting_externals (init painting_externals False 2 (1/2) (1/2)) [demo_image] 0 True True
     = (Inr 2,
        (init painting_externals False 2 (1/2) (1/2))
          \<lparr>results := Some \<lparr>multi_hand_landmarks = Some [centre_hand], multi_handedness = None\<rparr>\<rparr>,
        [demo_image, demo_image, \<lparr>shape = [1, 2, 3], buf = [255, 255, 255, 255, 255, 255]\<rparr>])"
  by (simp add: find_hands_def lookup_def alloc_def cv2_flip_def cvtColor_BGR2RGB_def demo_image_def
        flip_rows_def flip_row_def numeral_2_eq_2 numeral_3_eq_3 painting_externals_def init_def
        centre_hand_def)

text \<open>The loops of \<open>find_positions\<close> as maps, when no handedness lookup raises.\<close>

lemma unpack_shape_3 [simp]: "shape im = [h, w, c] \<Longrightarrow> unpack_shape im = Inr (h, w, c)"
  by (simp add: unpack_shape_def)

lemma unpack_shape_length: "length (shape im) = 3 \<Longrightarrow> \<exists>h w c. shape im = [h, w, c]"
  by (auto simp: length_Suc_conv numeral_3_eq_3)

lemma landmarks_loop_eq:
  "landmarks_loop h w t ps acc =
     acc @ map (\<lambda>(i, lm). [PInt (int i), PInt (py_int (lm_x lm * real w)),
                            PInt (py_int (lm_y lm * real h)), PFloat (lm_z lm), PStr t]) ps"
  by (induction ps arbitrary: acc) (auto simp: Let_def)

lemma hands_loop_eq:
  assumes "\<And>i hand. (i, hand) \<in> set ps \<Longrightarrow> hand_type_of res i = Inr (lab i)"
  shows "hands_loop res h w ps acc =
           Inr (acc @ map (\<lambda>(i, hand). landmarks_loop h w (lab i) (enumerate 0 hand) []) ps)"
  using assms
proof (induction ps arbitrary: acc)
  case Nil
  then show ?case by simp
next
  case (Cons p ps)
  obtain i hand where p: "p = (i, hand)" by (cases p)
  have "hand_type_of res i = Inr (lab i)"
    using Cons.prems [of i hand] p by simp
  moreover have "hands_loop res h w ps (acc @ [landmarks_loop h w (lab i) (enumerate 0 hand) []])
      = Inr ((acc @ [landmarks_loop h w (lab i) (enumerate 0 hand) []])
             @ map (\<lambda>(i, hand). landmarks_loop h w (lab i) (enumerate 0 hand) []) ps)"
    by (rule Cons.IH) (use Cons.prems in auto)
  ultimately show ?case by (simp add: p)
qed

lemma hand_type_of_default:
  "\<not> truthy (multi_handedness res) \<Longrightarrow> hand_type_of res i = Inr ''Right''"
  by (auto simp: truthy_def hand_type_of_def split: option.splits)

lemma hand_type_of_ok:
  assumes "results self = Some res" and "handedness_ok self" and "i < length (detected_hands self)"
  shows "\<exists>l. hand_type_of res i = Inr l"
proof (cases "truthy (multi_handedness res)")
  case False
  then show ?thesis by (simp add: hand_type_of_default)
next
  case True
  then obtain mh where mh: "multi_handedness res = Some mh" "mh \<noteq> []"
    by (auto simp: truthy_def split: option.splits)
  with assms have len: "length (detected_hands self) \<le> length mh"
    and all: "list_all (\<lambda>cls. cls \<noteq> []) (take (length (detected_hands self)) mh)"
    by (auto simp: handedness_ok_def)
  from all assms(3) len have "mh ! i \<noteq> []"
    by (metis (mono_tags, lifting) length_take list_all_length min.absorb2 nth_take)
  with mh len assms(3) show ?thesis
    by (auto simp: hand_type_of_def py_index_def)
qed

lemma map_enumerate_drop_index:
  "map (\<lambda>(i, x). f x) (enumerate n xs) = map f xs"
  by (induction xs arbitrary: n) simp_all

lemma find_positions_eq:
  assumes "img < length hp" and "shape (hp ! img) = [h, w, c]"
    and "\<And>res i. results self = Some res \<Longrightarrow> i < length (detected_hands self)
            \<Longrightarrow> hand_type_of res i = Inr (lab i)"
  shows "fst (find_positions self hp img) =
           Inr (map (\<lambda>(i, hand). landmarks_loop h w (lab i) (enumerate 0 hand) [])
                  (enumerate 0 (detected_hands self)))"
proof (cases "results self")
  case None
  then show ?thesis
    using assms(1,2) by (simp add: find_positions_def lookup_def detected_hands_def)
next
  case (Some res)
  show ?thesis
  proof (cases "multi_hand_landmarks res")
    case None
    then show ?thesis
      using assms(1,2) Some by (simp add: find_positions_def lookup_def detected_hands_def)
  next
    case (Some hs)
    have dh: "detected_hands self = hs"
      using \<open>results self = Some res\<close> Some by (simp add: detected_hands_def)
    have "hands_loop res h w (enumerate 0 hs) [] =
            Inr ([] @ map (\<lambda>(i, hand). landmarks_loop h w (lab i) (enumerate 0 hand) [])
                         (enumerate 0 hs))"
    proof (rule hands_loop_eq)
      fix i hand
      assume "(i, hand) \<in> set (enumerate 0 hs)"
      then have "i < length hs" by (auto simp: in_set_enumerate_eq)
      then show "hand_type_of res i = Inr (lab i)"
        using assms(3) \<open>results self = Some res\<close> dh by simp
    qed
    then show ?thesis
      using assms(1,2) \<open>results self = Some res\<close> Some dh
      by (simp add: find_positions_def lookup_def)
  qed
qed

lemma demo_find_positions:
  "fst (find_positions (demo_detector hs) [demo_image] 0) =
     Inr (map (\<lambda>(i, hand). map (\<lambda>(j, lm). [PInt (int j), PInt (py_int (lm_x lm * 2)),
                 PInt (py_int (lm_y lm)), PFloat (lm_z lm), PStr ''Right'']) (enumerate 0 hand))
            (enumerate 0 hs))"
proof -
  have "fst (find_positions (demo_detector hs) [demo_image] 0)
          = Inr (map (\<lambda>(i, hand). landmarks_loop 1 2 (''Right'') (enumerate 0 hand) [])
                  (enumerate 0 (detected_hands (demo_detector hs))))"
    by (rule find_positions_eq)
       (auto simp: hand_type_of_default truthy_def demo_detector_def)
  then show ?thesis by (simp add: landmarks_loop_eq)
qed

text \<open>The loop of \<open>find_position\<close>: its result when drawing succeeds, and the form of its tuples.\<close>

lemma position_loop_eq:
  assumes "img < length hp" and "shape (hp ! img) = [h, w, c]"
    and "draw \<longrightarrow> (\<forall>p \<in> set ps. \<forall>im. shape im = [h, w, c] \<longrightarrow>
           (\<exists>b. circle ext im (py_int (lm_x (snd p) * real w), py_int (lm_y (snd p) * real h))
                   draw_radius = Inr b))"
  shows "fst (position_loop ext img draw draw_radius ps acc hp) =
           Inr (acc @ map (\<lambda>(idx, lm). [PInt (int idx), PInt (py_int (lm_x lm * real w)),
                                          PInt (py_int (lm_y lm * real h))]) ps)"
  using assms
proof (induction ps arbitrary: acc hp)
  case Nil
  then show ?case by simp
next
  case (Cons p ps)
  obtain idx lm where p: "p = (idx, lm)" by (cases p)
  let ?t = "[PInt (int idx), PInt (py_int (lm_x lm * real w)), PInt (py_int (lm_y lm * real h))]"
  have rest: "draw \<longrightarrow> (\<forall>p \<in> set ps. \<forall>im. shape im = [h, w, c] \<longrightarrow>
           (\<exists>b. circle ext im (py_int (lm_x (snd p) * real w), py_int (lm_y (snd p) * real h))
                   draw_radius = Inr b))"
    using Cons.prems(3) by simp
  show ?case
  proof (cases draw)
    case False
    with Cons.IH [OF Cons.prems(1) Cons.prems(2) rest, of "acc @ [?t]"]
    show ?thesis
      using Cons.prems(1,2) by (simp add: p lookup_def Let_def)
  next
    case True
    with Cons.prems(2,3) obtain b where
      b: "circle ext (hp ! img) (py_int (lm_x lm * real w), py_int (lm_y lm * real h)) draw_radius = Inr b"
      by (auto simp: p)
    let ?hp = "hp[img := (hp ! img)\<lparr>buf := b\<rparr>]"
    have 1: "img < length ?hp" using Cons.prems(1) by simp
    have 2: "shape (?hp ! img) = [h, w, c]" using Cons.prems(1,2) by simp
    from Cons.IH [OF 1 2 rest, of "acc @ [?t]"] show ?thesis
      using Cons.prems(1,2) True b by (simp add: p lookup_def Let_def)
  qed
qed

lemma position_loop_triples:
  assumes "position_loop ext img draw draw_radius ps acc hp = (Inr r, hp1)"
    and "t \<in> set r"
  shows "t \<in> set acc \<or> (\<exists>i px py. t = [PInt i, PInt px, PInt py])"
  using assms
proof (induction ps arbitrary: acc hp)
  case Nil
  then show ?case by simp
next
  case (Cons p ps)
  obtain idx lm where p: "p = (idx, lm)" by (cases p)
  from Cons.prems(1) obtain acc1 hpa where
    "position_loop ext img draw draw_radius ps acc1 hpa = (Inr r, hp1)"
    and "set acc1 \<subseteq> set acc \<union> {t. \<exists>i px py. t = [PInt i, PInt px, PInt py]}"
    by (auto simp: p Let_def split: sum.splits if_splits prod.splits)
  with Cons.IH [of acc1 hpa] Cons.prems(2) show ?case by blast
qed

text \<open>
  Two ways the extractors raise: \<open>find_positions\<close> unpacks the shape before it looks at the
  stored result, and \<open>find_position\<close> checks its index only from above.
\<close>

lemma find_positions_other_shape_raises:
  assumes "img < length hp" and "length (shape (hp ! img)) \<noteq> 3"
  shows "find_positions self hp img = (Inl ValueError, self, hp)"
proof -
  have "unpack_shape (hp ! img) = Inl ValueError"
    using assms(2) by (auto simp: unpack_shape_def split: list.splits)
  with assms(1) show ?thesis
    by (simp add: find_positions_def lookup_def)
qed

lemma find_position_below_range_raises:
  assumes "detected_hands self = hs" and "hs \<noteq> []" and "hand_no < - int (length hs)"
  shows "find_position ext self hp img hand_no draw draw_radius = (Inl IndexError, self, hp)"
proof -
  obtain res where res: "results self = Some res" "multi_hand_landmarks res = Some hs"
    using assms(1,2) by (auto simp: detected_hands_def split: option.splits)
  with assms(2,3) show ?thesis
    by (simp add: find_position_def py_index_def)
qed

text \<open>
  Three more boundary behaviours: a handedness entry without a classification makes
  \<open>find_positions\<close> raise, a clock that has not advanced makes \<open>update_fps\<close> raise, and a
  normalised coordinate outside the unit interval is converted like any other
  (\<open>int(-1.5) = -1\<close>, \<open>int(1.5) = 1\<close> on the one-row image).
\<close>

lemma find_positions_missing_classification_raises:
  "fst (find_positions
          ((init demo_externals False 2 (1/2) (1/2))
             \<lparr>results := Some \<lparr>multi_hand_landmarks = Some [centre_hand],
                                multi_handedness = Some [[]]\<rparr>\<rparr>)
          [demo_image] 0) = Inl IndexError"
  by (simp add: find_positions_def lookup_def hand_type_of_def py_index_def)

lemma update_fps_same_reading_raises:
  "0 < prev_time self \<Longrightarrow> fst (update_fps (prev_time self) self) = Inl ZeroDivisionError"
  by (simp add: update_fps_def py_div_def)

lemma find_positions_negative_coordinate:
  "fst (find_positions (demo_detector [[\<lparr>lm_x = - 3/4, lm_y = 3/2, lm_z = 0\<rparr>]]) [demo_image] 0)
     = Inr [[[PInt 0, PInt (- 1), PInt 1, PFloat 0, PStr ''Right'']]]"
  by (simp add: demo_find_positions py_int_def ceiling_def)

subsection \<open>find_positions: counts and pixel range\<close>

text \<open>
  Claim C1, as amended. Let the stored result hold \<open>N\<close> hands with 21 landmarks each, with
  handedness data absent or covering every hand, and let the image be a three-dimensional
  array of shape \<open>(h, w, c)\<close>. Then \<open>find_positions\<close> returns exactly \<open>N\<close> hand records of
  exactly 21 tuples each; tuple \<open>j\<close> of hand \<open>i\<close> is
  \<open>[j, int(x * w), int(y * h), z, label]\<close>. Its pixel coordinates lie in
  \<open>[0, w) \<times> [0, h)\<close> whenever the normalised coordinates lie in \<open>[0, 1)\<close> and the image is
  not empty.
\<close>

theorem find_positions_counts_and_range:
  assumes "img < length hp" and "shape (hp ! img) = [h, w, c]"
    and "detected_hands self = hs"
    and "\<forall>hand \<in> set hs. length hand = 21"
    and "handedness_ok self"
  shows "\<exists>all_hands.
           fst (find_positions self hp img) = Inr all_hands
         \<and> length all_hands = length hs
         \<and> (\<forall>hand_rec \<in> set all_hands. length hand_rec = 21)
         \<and> (\<forall>i < length hs. \<forall>j < 21. \<exists>l.
              all_hands ! i ! j =
                [PInt (int j), PInt (py_int (lm_x (hs ! i ! j) * real w)),
                 PInt (py_int (lm_y (hs ! i ! j) * real h)), PFloat (lm_z (hs ! i ! j)), PStr l]
              \<and> (0 \<le> lm_x (hs ! i ! j) \<and> lm_x (hs ! i ! j) < 1 \<and> 0 < w
                   \<longrightarrow> 0 \<le> py_int (lm_x (hs ! i ! j) * real w)
                       \<and> py_int (lm_x (hs ! i ! j) * real w) < int w)
              \<and> (0 \<le> lm_y (hs ! i ! j) \<and> lm_y (hs ! i ! j) < 1 \<and> 0 < h
                   \<longrightarrow> 0 \<le> py_int (lm_y (hs ! i ! j) * real h)
                       \<and> py_int (lm_y (hs ! i ! j) * real h) < int h))"
proof -
  define lab where "lab i = (case results self of
      None \<Rightarrow> [] | Some res \<Rightarrow> (case hand_type_of res i of Inl e \<Rightarrow> [] | Inr l \<Rightarrow> l))" for i
  have labs: "\<And>res i. results self = Some res \<Longrightarrow> i < length (detected_hands self)
                 \<Longrightarrow> hand_type_of res i = Inr (lab i)"
    using hand_type_of_ok [OF _ assms(5)] by (fastforce simp: lab_def)
  let ?tup = "\<lambda>t. \<lambda>(i, lm). [PInt (int i), PInt (py_int (lm_x lm * real w)),
                   PInt (py_int (lm_y lm * real h)), PFloat (lm_z lm), PStr t]"
  let ?all = "map (\<lambda>(i, hand). map (?tup (lab i)) (enumerate 0 hand)) (enumerate 0 hs)"
  have "fst (find_positions self hp img) =
          Inr (map (\<lambda>(i, hand). landmarks_loop h w (lab i) (enumerate 0 hand) [])
                 (enumerate 0 (detected_hands self)))"
    by (rule find_positions_eq [OF assms(1) assms(2)]) (rule labs)
  then have res: "fst (find_positions self hp img) = Inr ?all"
    using assms(3) by (simp add: landmarks_loop_eq)
  have len: "length ?all = length hs" by simp
  have recs: "\<forall>hand_rec \<in> set ?all. length hand_rec = 21"
    using assms(4) by (auto simp: in_set_enumerate_eq)
  have entry: "?all ! i ! j =
        [PInt (int j), PInt (py_int (lm_x (hs ! i ! j) * real w)),
         PInt (py_int (lm_y (hs ! i ! j) * real h)), PFloat (lm_z (hs ! i ! j)), PStr (lab i)]"
    if "i < length hs" "j < 21" for i j
  proof -
    have "length (hs ! i) = 21" using assms(4) that(1) by simp
    then show ?thesis using that by (simp add: nth_enumerate_eq)
  qed
  have "\<forall>i < length hs. \<forall>j < 21. \<exists>l.
              ?all ! i ! j =
                [PInt (int j), PInt (py_int (lm_x (hs ! i ! j) * real w)),
                 PInt (py_int (lm_y (hs ! i ! j) * real h)), PFloat (lm_z (hs ! i ! j)), PStr l]
              \<and> (0 \<le> lm_x (hs ! i ! j) \<and> lm_x (hs ! i ! j) < 1 \<and> 0 < w
                   \<longrightarrow> 0 \<le> py_int (lm_x (hs ! i ! j) * real w)
                       \<and> py_int (lm_x (hs ! i ! j) * real w) < int w)
              \<and> (0 \<le> lm_y (hs ! i ! j) \<and> lm_y (hs ! i ! j) < 1 \<and> 0 < h
                   \<longrightarrow> 0 \<le> py_int (lm_y (hs ! i ! j) * real h)
                       \<and> py_int (lm_y (hs ! i ! j) * real h) < int h)"
    using entry py_int_range by blast
  with res len recs show ?thesis by blast
qed

text \<open>The theorem at two sample hands on the sample image.\<close>

theorem find_positions_counts_and_range_witness:
  "\<exists>all_hands. fst (find_positions (demo_detector [centre_hand, edge_hand]) [demo_image] 0) = Inr all_hands
      \<and> length all_hands = 2
      \<and> (\<exists>l. all_hands ! 0 ! 20 = [PInt 20, PInt 1, PInt 0, PFloat 0, PStr l])"
proof -
  have 1: "(0::nat) < length [demo_image]" by simp
  have 2: "shape ([demo_image] ! 0) = [1, 2, 3]" by simp
  have 3: "detected_hands (demo_detector [centre_hand, edge_hand]) = [centre_hand, edge_hand]" by simp
  have 4: "\<forall>hand \<in> set [centre_hand, edge_hand]. length hand = 21"
    by (simp add: centre_hand_def edge_hand_def)
  have 5: "handedness_ok (demo_detector [centre_hand, edge_hand])" by simp
  from find_positions_counts_and_range [OF 1 2 3 4 5]
  obtain all_hands where a: "fst (find_positions (demo_detector [centre_hand, edge_hand]) [demo_image] 0) = Inr all_hands"
    and b: "length all_hands = length [centre_hand, edge_hand]"
    and c: "\<forall>i < length [centre_hand, edge_hand]. \<forall>j < 21. \<exists>l.
              all_hands ! i ! j =
                [PInt (int j), PInt (py_int (lm_x ([centre_hand, edge_hand] ! i ! j) * real 2)),
                 PInt (py_int (lm_y ([centre_hand, edge_hand] ! i ! j) * real 1)),
                 PFloat (lm_z ([centre_hand, edge_hand] ! i ! j)), PStr l]"
    by blast
  from c [rule_format, of 0 20] obtain l where
    d: "all_hands ! 0 ! 20 = [PInt 20, PInt 1, PInt 0, PFloat 0, PStr l]"
    by (auto simp: centre_hand_def py_int_def)
  from a b d show ?thesis by auto
qed

text \<open>
  The claim as first stated fails: a hand whose 21 landmarks all have \<open>x = 1.0\<close>, on the
  image of width 2, gives every tuple the pixel column 2, which is not below the width.
\<close>

theorem find_positions_range_counterexample:
  "fst (find_positions (demo_detector [edge_hand]) [demo_image] 0) =
     Inr [[[PInt 0, PInt 2, PInt 0, PFloat 0, PStr ''Right''],
           [PInt 1, PInt 2, PInt 0, PFloat 0, PStr ''Right''],
           [PInt 2, PInt 2, PInt 0, PFloat 0, PStr ''Right''],
           [PInt 3, PInt 2, PInt 0, PFloat 0, PStr ''Right''],
           [PInt 4, PInt 2, PInt 0, PFloat 0, PStr ''Right''],
           [PInt 5, PInt 2, PInt 0, PFloat 0, PStr ''Right''],
           [PInt 6, PInt 2, PInt 0, PFloat 0, PStr ''Right''],
           [PInt 7, PInt 2, PInt 0, PFloat 0, PStr ''Right''],
           [PInt 8, PInt 2, PInt 0, PFloat 0, PStr ''Right''],
           [PInt 9, PInt 2, PInt 0, PFloat 0, PStr ''Right''],
           [PInt 10, PInt 2, PInt 0, PFloat 0, PStr ''Right''],
           [PInt 11, PInt 2, PInt 0, PFloat 0, PStr ''Right''],
           [PInt 12, PInt 2, PInt 0, PFloat 0, PStr ''Right''],
           [PInt 13, PInt 2, PInt 0, PFloat 0, PStr ''Right''],
           [PInt 14, PInt 2, PInt 0, PFloat 0, PStr ''Right''],
           [PInt 15, PInt 2, PInt 0, PFloat 0, PStr ''Right''],
           [PInt 16, PInt 2, PInt 0, PFloat 0, PStr ''Right''],
           [PInt 17, PInt 2, PInt 0, PFloat 0, PStr ''Right''],
           [PInt 18, PInt 2, PInt 0, PFloat 0, PStr ''Right''],
           [PInt 19, PInt 2, PInt 0, PFloat 0, PStr ''Right''],
           [PInt 20, PInt 2, PInt 0, PFloat 0, PStr ''Right'']]]
   \<and> shape ([demo_image] ! 0) = [1, 2, 3] \<and> \<not> ((2::int) < 2)"
  by (simp add: demo_find_positions edge_hand_def eval_nat_numeral py_int_def)

subsection \<open>find_position: index out of range\<close>

text \<open>
  Claim C2. For every stored result (also none) and every hand index \<open>hand_no\<close> that is
  at least the number of detected hands, \<open>find_position\<close> returns the empty list and raises
  nothing; the adapter and every image are left as they were, whatever the image argument
  and the drawing flag.
\<close>

theorem find_position_index_out_of_range:
  assumes "int (length (detected_hands self)) \<le> hand_no"
  shows "find_position ext self hp img hand_no draw draw_radius = (Inr [], self, hp)"
  using assms
  by (simp add: find_position_def detected_hands_def split: option.splits)

text \<open>One hand detected, index 1 requested.\<close>

theorem find_position_index_out_of_range_witness:
  "find_position painting_externals (demo_detector [centre_hand]) [demo_image] 0 1 True 5
     = (Inr [], demo_detector [centre_hand], [demo_image])"
  using find_position_index_out_of_range
          [of "demo_detector [centre_hand]" 1 painting_externals "[demo_image]" 0 True 5]
  by simp

subsection \<open>update_fps: the rate is truncated\<close>

text \<open>
  Claim C3, as amended. When a previous call has recorded a positive timestamp and the
  clock reading differs from it, \<open>update_fps\<close> stores and returns \<open>int(1 / elapsed)\<close>, the
  rate truncated towards zero (not rounded to the nearest integer), and records the new
  timestamp. The value is within 1 of \<open>round (1 / elapsed)\<close> and of every integer nearest
  to \<open>1 / elapsed\<close>.
\<close>

theorem update_fps_truncates:
  assumes "0 < prev_time self" and "now \<noteq> prev_time self"
  shows "fst (update_fps now self) = Inr (py_int (1 / (now - prev_time self)))
       \<and> fps (snd (update_fps now self)) = py_int (1 / (now - prev_time self))
       \<and> prev_time (snd (update_fps now self)) = now
       \<and> \<bar>py_int (1 / (now - prev_time self)) - round (1 / (now - prev_time self))\<bar> \<le> 1
       \<and> (\<forall>r::int. \<bar>real_of_int r - 1 / (now - prev_time self)\<bar> \<le> 1/2
             \<longrightarrow> \<bar>py_int (1 / (now - prev_time self)) - r\<bar> \<le> 1)"
proof -
  have near: "\<bar>real_of_int (round (1 / (now - prev_time self))) - 1 / (now - prev_time self)\<bar> \<le> 1/2"
    by (rule of_int_round_abs_le)
  show ?thesis
    using assms py_int_near [OF near]
    by (simp add: update_fps_def py_div_def Let_def py_int_near)
qed

text \<open>A second call a quarter of a second after a first call at clock reading 1.\<close>

theorem update_fps_truncates_witness:
  "fst (update_fps (5/4) (snd (update_fps 1 (init demo_externals False 2 (1/2) (1/2))))) = Inr 4"
  using update_fps_truncates [of "snd (update_fps 1 (init demo_externals False 2 (1/2) (1/2)))" "5/4"]
  by (simp add: update_fps_def py_div_def init_def py_int_def)

text \<open>
  The claim as first stated fails: a second call \<open>0.375\<close> seconds after the first returns
  2, while \<open>1 / 0.375\<close> rounded to the nearest integer is 3.
\<close>

theorem update_fps_counterexample:
  "fst (update_fps (11/8) (snd (update_fps 1 (init demo_externals False 2 (1/2) (1/2))))) = Inr 2
   \<and> round (1 / (11/8 - 1 :: real)) = 3"
  by (simp add: update_fps_def py_div_def init_def py_int_def round_def)

subsection \<open>The default handedness label\<close>

text \<open>
  Claim C4, as amended. The default label \<open>"Right"\<close> belongs to the multi-hand extractor:
  when the stored result has no handedness data (\<open>multi_handedness\<close> is \<open>None\<close> or empty),
  \<open>find_positions\<close> on a three-dimensional image returns, for every detected hand in
  order, one tuple \<open>[j, int(x * w), int(y * h), z, "Right"]\<close> per landmark \<open>j\<close> of that hand:
  as many records as hands, as many tuples as landmarks, each of five entries with
  \<open>"Right"\<close> last. The legacy \<open>find_position\<close> returns tuples \<open>[id, x, y]\<close> of three
  integers, which carry no handedness label at all.
\<close>

theorem default_label_in_find_positions:
  assumes "img < length hp" and "shape (hp ! img) = [h, w, c]"
    and "results self = Some res" and "\<not> truthy (multi_handedness res)"
  shows "fst (find_positions self hp img)
           = Inr (map (\<lambda>hand. map (\<lambda>(j, lm).
                          [PInt (int j), PInt (py_int (lm_x lm * real w)),
                           PInt (py_int (lm_y lm * real h)), PFloat (lm_z lm), PStr ''Right''])
                        (enumerate 0 hand))
                    (detected_hands self))
       \<and> (\<exists>all_hands.
            fst (find_positions self hp img) = Inr all_hands
          \<and> length all_hands = length (detected_hands self)
          \<and> (\<forall>i < length (detected_hands self).
                length (all_hands ! i) = length (detected_hands self ! i))
          \<and> (\<forall>hand_rec \<in> set all_hands. \<forall>t \<in> set hand_rec. length t = 5 \<and> t ! 4 = PStr ''Right''))
       \<and> (\<forall>lms. fst (find_position ext self hp img hand_no draw draw_radius) = Inr lms
            \<longrightarrow> (\<forall>t \<in> set lms. \<exists>i px py. t = [PInt i, PInt px, PInt py]))"
proof -
  have "fst (find_positions self hp img) =
          Inr (map (\<lambda>(i, hand). landmarks_loop h w ''Right'' (enumerate 0 hand) [])
                 (enumerate 0 (detected_hands self)))"
    by (rule find_positions_eq [OF assms(1) assms(2)])
       (use assms(3,4) in \<open>simp add: hand_type_of_default\<close>)
  also have "map (\<lambda>(i, hand). landmarks_loop h w ''Right'' (enumerate 0 hand) [])
                 (enumerate 0 (detected_hands self))
        = map (\<lambda>hand. map (\<lambda>(j, lm).
                          [PInt (int j), PInt (py_int (lm_x lm * real w)),
                           PInt (py_int (lm_y lm * real h)), PFloat (lm_z lm), PStr ''Right''])
                        (enumerate 0 hand))
                    (detected_hands self)"
    by (simp add: landmarks_loop_eq map_enumerate_drop_index)
  finally have exact: "fst (find_positions self hp img)
           = Inr (map (\<lambda>hand. map (\<lambda>(j, lm).
                          [PInt (int j), PInt (py_int (lm_x lm * real w)),
                           PInt (py_int (lm_y lm * real h)), PFloat (lm_z lm), PStr ''Right''])
                        (enumerate 0 hand))
                    (detected_hands self))" .
  then have multi: "\<exists>all_hands.
            fst (find_positions self hp img) = Inr all_hands
          \<and> length all_hands = length (detected_hands self)
          \<and> (\<forall>i < length (detected_hands self).
                length (all_hands ! i) = length (detected_hands self ! i))
          \<and> (\<forall>hand_rec \<in> set all_hands. \<forall>t \<in> set hand_rec. length t = 5 \<and> t ! 4 = PStr ''Right'')"
    by auto
  have single: "\<exists>i px py. t = [PInt i, PInt px, PInt py]"
    if "fst (find_position ext self hp img hand_no draw draw_radius) = Inr lms" "t \<in> set lms"
    for lms t
  proof -
    from that(1) have "lms = [] \<or> (\<exists>ps hp1.
        position_loop ext img draw draw_radius ps [] hp = (Inr lms, hp1))"
      by (auto simp: find_position_def split: option.splits if_splits sum.splits prod.splits)
    with that(2) show ?thesis
      using position_loop_triples by fastforce
  qed
  from exact multi single show ?thesis by blast
qed

text \<open>
  One hand of two landmarks and no handedness data: both returned tuples end in \<open>"Right"\<close>.
\<close>

theorem default_label_in_find_positions_witness:
  "fst (find_positions (demo_detector [[\<lparr>lm_x = 1/2, lm_y = 1/2, lm_z = 0\<rparr>,
                                        \<lparr>lm_x = 1/4, lm_y = 3/4, lm_z = 1\<rparr>]]) [demo_image] 0)
     = Inr [[[PInt 0, PInt 1, PInt 0, PFloat 0, PStr ''Right''],
             [PInt 1, PInt 0, PInt 0, PFloat 1, PStr ''Right'']]]
   \<and> \<not> truthy (multi_handedness
          \<lparr>multi_hand_landmarks = Some [[\<lparr>lm_x = 1/2, lm_y = 1/2, lm_z = 0\<rparr>,
                                          \<lparr>lm_x = 1/4, lm_y = 3/4, lm_z = 1\<rparr>]],
           multi_handedness = None\<rparr>)"
proof -
  let ?hs = "[[\<lparr>lm_x = 1/2, lm_y = 1/2, lm_z = 0\<rparr>, \<lparr>lm_x = 1/4, lm_y = 3/4, lm_z = 1\<rparr>]]"
  have 1: "(0::nat) < length [demo_image]" by simp
  have 2: "shape ([demo_image] ! 0) = [1, 2, 3]" by simp
  have 3: "results (demo_detector ?hs) =
             Some \<lparr>multi_hand_landmarks = Some ?hs, multi_handedness = None\<rparr>"
    by (simp add: demo_detector_def)
  have 4: "\<not> truthy (multi_handedness \<lparr>multi_hand_landmarks = Some ?hs, multi_handedness = None\<rparr>)"
    by (simp add: truthy_def)
  from default_label_in_find_positions [OF 1 2 3 4, of marking_externals 0 False 5, THEN conjunct1] 4
  show ?thesis
    by (simp add: py_int_def)
qed

text \<open>
  The claim as first stated fails: with one detected hand of one landmark and no handedness
  data, \<open>find_position\<close> returns the single tuple \<open>[0, 1, 0]\<close>, in which \<open>"Right"\<close> does not
  occur.
\<close>

theorem find_position_label_counterexample:
  "fst (find_position demo_externals
          (demo_detector [[\<lparr>lm_x = 1/2, lm_y = 1/2, lm_z = 0\<rparr>]]) [demo_image] 0 0 False 5)
     = Inr [[PInt 0, PInt 1, PInt 0]]
   \<and> multi_handedness \<lparr>multi_hand_landmarks = Some [[\<lparr>lm_x = 1/2, lm_y = 1/2, lm_z = 0\<rparr>]],
                        multi_handedness = None\<rparr> = None
   \<and> PStr ''Right'' \<notin> set [PInt 0, PInt 1, PInt 0]"
  by (simp add: find_position_def demo_detector_def init_def py_index_def lookup_def py_int_def)

subsection \<open>update_fps: the first call\<close>

text \<open>
  Claim C5. The first call to \<open>update_fps\<close>, when no previous timestamp has been recorded
  (\<open>prev_time\<close> still has the value 0 that the constructor gave it), returns 0, stores 0
  as the rate and records the clock reading.
\<close>

theorem update_fps_first_call:
  assumes "prev_time self = 0"
  shows "fst (update_fps now self) = Inr 0 \<and> fps (snd (update_fps now self)) = 0
         \<and> prev_time (snd (update_fps now self)) = now"
  using assms by (simp add: update_fps_def py_int_def)

text \<open>A freshly constructed adapter satisfies the hypothesis.\<close>

theorem update_fps_first_call_witness:
  "fst (update_fps 1000 (init demo_externals False 2 (1/2) (1/2))) = Inr 0"
  using update_fps_first_call [of "init demo_externals False 2 (1/2) (1/2)" 1000]
  by (simp add: init_def)

subsection \<open>find_positions: nothing detected\<close>

text \<open>
  Claim C6. In every state in which the stored detection result is absent or contains no
  hands, \<open>find_positions\<close> returns the empty sequence. The image is a colour image, that
  is an array with a three-entry shape, as the interface requires; on any other array the
  method raises when it unpacks the shape (\<open>find_positions_other_shape_raises\<close>).
\<close>

theorem find_positions_no_hands:
  assumes "detected_hands self = []" and "img < length hp" and "length (shape (hp ! img)) = 3"
  shows "find_positions self hp img = (Inr [], self, hp)"
proof -
  from assms(3) obtain h w c where "shape (hp ! img) = [h, w, c]"
    using unpack_shape_length by blast
  with assms(1,2) show ?thesis
    by (auto simp: find_positions_def lookup_def detected_hands_def split: option.splits)
qed

text \<open>A freshly constructed adapter has no stored result.\<close>

theorem find_positions_no_hands_witness:
  "find_positions (init demo_externals False 2 (1/2) (1/2)) [demo_image] 0
     = (Inr [], init demo_externals False 2 (1/2) (1/2), [demo_image])"
  using find_positions_no_hands [of "init demo_externals False 2 (1/2) (1/2)" 0 "[demo_image]"]
  by (simp add: detected_hands_def init_def)

subsection \<open>find_hands: flipping twice\<close>

text \<open>
  Claim C7. Apply \<open>find_hands\<close> twice with flipping enabled each time, the second time to
  the image the first call returned, on a well-formed three-dimensional image and with a
  drawing utility that keeps the buffer's size. Each call returns the horizontal mirror
  image of its input (column \<open>j\<close> holds what column \<open>w - 1 - j\<close> held) with that call's
  overlay drawn on it. The flip is an involution: mirroring the first call's mirror image
  gives the original image back, so when no overlay is drawn the second call returns an
  image equal to the original, and in every case each pixel of the second result that
  neither call's overlay has changed has the value the original image has at the same
  position.
\<close>

theorem find_hands_twice_restores_orientation:
  assumes "wf_image (hp ! img)" and "shape (hp ! img) = [h, w, c]"
    and "\<forall>im hl b. draw_landmarks ext im hl = Inr b \<longrightarrow> length b = length (buf im)"
    and "find_hands ext self hp img draw1 True = (Inr out1, self1, hp1)"
    and "find_hands ext self1 hp1 out1 draw2 True = (Inr out2, self2, hp2)"
  shows "\<exists>f1 f2.
           mirrored (hp ! img) f1 \<and> overlay ext draw1 self1 f1 = Inr (hp1 ! out1)
         \<and> mirrored (hp1 ! out1) f2 \<and> overlay ext draw2 self2 f2 = Inr (hp2 ! out2)
         \<and> (hp1 ! out1 = f1 \<longrightarrow> f2 = hp ! img)
         \<and> (\<not> (draw1 \<and> detected_hands self1 \<noteq> []) \<and> \<not> (draw2 \<and> detected_hands self2 \<noteq> [])
              \<longrightarrow> hp2 ! out2 = hp ! img)
         \<and> (\<forall>i < h. \<forall>j < w. \<forall>k < c.
               pixel (hp1 ! out1) i (w - 1 - j) k = pixel f1 i (w - 1 - j) k
               \<and> pixel (hp2 ! out2) i j k = pixel f2 i j k
               \<longrightarrow> pixel (hp2 ! out2) i j k = pixel (hp ! img) i j k)"
proof -
  from find_hands_result [OF assms(4)] obtain f1 where
    f1: "cv2_flip (hp ! img) = Inr f1" and o1: "overlay ext draw1 self1 f1 = Inr (hp1 ! out1)"
    by blast
  from find_hands_result [OF assms(5)] obtain f2 where
    f2: "cv2_flip (hp1 ! out1) = Inr f2" and o2: "overlay ext draw2 self2 f2 = Inr (hp2 ! out2)"
    by blast
  have m1: "mirrored (hp ! img) f1"
    by (rule cv2_flip_mirrored [OF assms(1) assms(2) f1])
  have wf1: "wf_image f1" by (rule cv2_flip_wf [OF assms(1) f1])
  have sh1: "shape f1 = [h, w, c]" using cv2_flip_shape [OF f1] assms(2) by simp
  from overlay_wf [OF assms(3) o1] have same: "shape (hp1 ! out1) = [h, w, c]"
    and len: "length (buf (hp1 ! out1)) = length (buf f1)"
    using sh1 by simp_all
  have wfo: "wf_image (hp1 ! out1)"
    using wf1 same len sh1 by (simp add: wf_image_def)
  have m2: "mirrored (hp1 ! out1) f2"
    by (rule cv2_flip_mirrored [OF wfo same f2])
  have inv: "hp1 ! out1 = f1 \<longrightarrow> f2 = hp ! img"
    using cv2_flip_twice [OF assms(1) f1] f2 by auto
  have plain: "\<not> (draw1 \<and> detected_hands self1 \<noteq> []) \<and> \<not> (draw2 \<and> detected_hands self2 \<noteq> [])
              \<longrightarrow> hp2 ! out2 = hp ! img"
    using o1 o2 inv by (auto simp: overlay_def)
  have pix: "pixel (hp2 ! out2) i j k = pixel (hp ! img) i j k"
    if "i < h" "j < w" "k < c"
      "pixel (hp1 ! out1) i (w - 1 - j) k = pixel f1 i (w - 1 - j) k"
      "pixel (hp2 ! out2) i j k = pixel f2 i j k" for i j k
  proof -
    have jj: "w - 1 - j < w" "w - 1 - (w - 1 - j) = j" using that(2) by auto
    have "pixel f2 i j k = pixel (hp1 ! out1) i (w - 1 - j) k"
      using m2 same that(1,2,3) by (simp add: mirrored_def)
    moreover have "pixel f1 i (w - 1 - j) k = pixel (hp ! img) i (w - 1 - (w - 1 - j)) k"
      using m1 assms(2) that(1,3) jj(1) by (simp add: mirrored_def)
    ultimately show ?thesis using that(4,5) jj(2) by simp
  qed
  from m1 o1 m2 o2 inv plain pix show ?thesis by blast
qed

text \<open>
  Two calls with drawing on and the engine that reports a hand. Each overlay marks byte 0
  of the image it draws on; in the second result the first mark has been mirrored to
  byte 3, the second mark is at byte 0, and every other byte is the original one.
\<close>

theorem find_hands_twice_restores_orientation_witness:
  "(\<exists>f1 f2.
      mirrored demo_image f1
    \<and> overlay marking_externals True
        ((init marking_externals False 2 (1/2) (1/2))
           \<lparr>results := Some \<lparr>multi_hand_landmarks = Some [centre_hand], multi_handedness = None\<rparr>\<rparr>) f1
        = Inr \<lparr>shape = [1, 2, 3], buf = [255, 5, 6, 1, 2, 3]\<rparr>
    \<and> mirrored \<lparr>shape = [1, 2, 3], buf = [255, 5, 6, 1, 2, 3]\<rparr> f2
    \<and> overlay marking_externals True
        ((init marking_externals False 2 (1/2) (1/2))
           \<lparr>results := Some \<lparr>multi_hand_landmarks = Some [centre_hand], multi_handedness = None\<rparr>\<rparr>) f2
        = Inr \<lparr>shape = [1, 2, 3], buf = [255, 2, 3, 255, 5, 6]\<rparr>)
   \<and> snd (snd (find_hands marking_externals
               (fst (snd (find_hands marking_externals (init marking_externals False 2 (1/2) (1/2))
                            [demo_image] 0 True True)))
               (snd (snd (find_hands marking_externals (init marking_externals False 2 (1/2) (1/2))
                            [demo_image] 0 True True)))
               2 True True)) ! 4 = \<lparr>shape = [1, 2, 3], buf = [255, 2, 3, 255, 5, 6]\<rparr>
   \<and> detected_hands ((init marking_externals False 2 (1/2) (1/2))
           \<lparr>results := Some \<lparr>multi_hand_landmarks = Some [centre_hand], multi_handedness = None\<rparr>\<rparr>)
       = [centre_hand]
   \<and> pixel \<lparr>shape = [1, 2, 3], buf = [255, 2, 3, 255, 5, 6]\<rparr> 0 1 2 = pixel demo_image 0 1 2"
proof -
  have wf: "wf_image ([demo_image] ! 0)"
    by (simp add: wf_image_def demo_image_def)
  have sh: "shape ([demo_image] ! 0) = [1, 2, 3]" by simp
  have keep: "\<forall>im hl b. draw_landmarks marking_externals im hl = Inr b \<longrightarrow> length b = length (buf im)"
    by (auto simp: marking_externals_def)
  from find_hands_twice_restores_orientation [OF wf sh keep marking_find_hands marking_find_hands_again]
  have first: "\<exists>f1 f2.
      mirrored demo_image f1
    \<and> overlay marking_externals True
        ((init marking_externals False 2 (1/2) (1/2))
           \<lparr>results := Some \<lparr>multi_hand_landmarks = Some [centre_hand], multi_handedness = None\<rparr>\<rparr>) f1
        = Inr \<lparr>shape = [1, 2, 3], buf = [255, 5, 6, 1, 2, 3]\<rparr>
    \<and> mirrored \<lparr>shape = [1, 2, 3], buf = [255, 5, 6, 1, 2, 3]\<rparr> f2
    \<and> overlay marking_externals True
        ((init marking_externals False 2 (1/2) (1/2))
           \<lparr>results := Some \<lparr>multi_hand_landmarks = Some [centre_hand], multi_handedness = None\<rparr>\<rparr>) f2
        = Inr \<lparr>shape = [1, 2, 3], buf = [255, 2, 3, 255, 5, 6]\<rparr>"
    by (elim exE conjE, intro exI conjI) simp_all
  have second: "snd (snd (find_hands marking_externals
               (fst (snd (find_hands marking_externals (init marking_externals False 2 (1/2) (1/2))
                            [demo_image] 0 True True)))
               (snd (snd (find_hands marking_externals (init marking_externals False 2 (1/2) (1/2))
                            [demo_image] 0 True True)))
               2 True True)) ! 4 = \<lparr>shape = [1, 2, 3], buf = [255, 2, 3, 255, 5, 6]\<rparr>"
    by (simp only: marking_find_hands marking_find_hands_again fst_conv snd_conv) simp
  have third: "detected_hands ((init marking_externals False 2 (1/2) (1/2))
           \<lparr>results := Some \<lparr>multi_hand_landmarks = Some [centre_hand], multi_handedness = None\<rparr>\<rparr>)
       = [centre_hand]"
    by (simp add: detected_hands_def)
  have fourth: "pixel \<lparr>shape = [1, 2, 3], buf = [255, 2, 3, 255, 5, 6]\<rparr> 0 1 2 = pixel demo_image 0 1 2"
    by (simp add: pixel_def demo_image_def)
  from first second third fourth show ?thesis by blast
qed

subsection \<open>find_positions: no mutation\<close>

text \<open>
  Claim C8. \<open>find_positions\<close> is a pure read: for every adapter, store and image argument,
  whether it returns or raises, it leaves every field of the adapter (stored result, FPS
  state, configuration, engine) and every image of the store, the input image among them,
  unchanged.
\<close>

theorem find_positions_pure_read:
  "snd (find_positions self hp img) = (self, hp)"
  by (simp add: find_positions_def split: sum.splits option.splits prod.splits)

subsection \<open>find_hands: the input image is not written\<close>

text \<open>
  Claim C9. \<open>find_hands\<close> never mutates the caller's input image. For every image, flag
  combination and outcome (returning or raising), every array that existed before the
  call, the input among them, is unchanged afterwards; the array returned is a new one,
  so flipping and landmark drawing affect only the returned copy.
\<close>

theorem find_hands_leaves_input_untouched:
  assumes "find_hands ext self hp img draw flip_type = (r, self1, hp1)"
  shows "take (length hp) hp1 = hp
       \<and> (img < length hp \<longrightarrow> hp1 ! img = hp ! img)
       \<and> (\<forall>out. r = Inr out \<longrightarrow> length hp \<le> out \<and> out < length hp1)"
proof -
  have main: "take (length hp) hp1 = hp \<and> (\<forall>out. r = Inr out \<longrightarrow> length hp \<le> out \<and> out < length hp1)"
    using assms
    by (auto simp: find_hands_def lookup_def alloc_def Let_def
          split: sum.splits if_splits prod.splits option.splits
          dest!: draw_loop_frame)
  then have "take (length hp) hp1 = hp" by simp
  then have "img < length hp \<longrightarrow> hp1 ! img = hp ! img"
    by (metis nth_take)
  with main show ?thesis by simp
qed

text \<open>
  With the engine that reports a hand and drawing that paints the buffer white, the
  returned array is painted and the input is not.
\<close>

theorem find_hands_leaves_input_untouched_witness:
  "take (length [demo_image])
     (snd (snd (find_hands painting_externals (init painting_externals False 2 (1/2) (1/2))
                  [demo_image] 0 True True))) = [demo_image]
   \<and> fst (find_hands painting_externals (init painting_externals False 2 (1/2) (1/2))
            [demo_image] 0 True True) = Inr 2
   \<and> snd (snd (find_hands painting_externals (init painting_externals False 2 (1/2) (1/2))
                  [demo_image] 0 True True)) ! 2
       = \<lparr>shape = [1, 2, 3], buf = [255, 255, 255, 255, 255, 255]\<rparr>"
  using find_hands_leaves_input_untouched [OF painting_find_hands]
  by (simp add: painting_find_hands)

subsection \<open>find_position: negative hand index\<close>

text \<open>
  Claim C10. When at least one hand is detected, a negative hand index such as
  \<open>hand_no = -1\<close> passes the bounds check, and \<open>find_position\<close> returns the landmark tuples
  of the hand counted from the end (for \<open>-1\<close> the last detected hand), a non-empty list when
  that hand has landmarks. Here the index is within \<open>-N \<dots> -1\<close> for \<open>N\<close> detected hands and
  the image is a three-dimensional array; when drawing is requested, \<open>cv2.circle\<close> is taken
  to succeed at the pixel centres of that hand's landmarks on arrays of the image's shape
  (nothing is asked of it at other centres or on other arrays). An index below \<open>-N\<close>
  raises \<open>IndexError\<close> (\<open>find_position_below_range_raises\<close>).
\<close>

theorem find_position_negative_index:
  assumes "detected_hands self = hs" and "hs \<noteq> []"
    and "- int (length hs) \<le> hand_no" and "hand_no < 0"
    and "img < length hp" and "shape (hp ! img) = [h, w, c]"
    and "draw \<longrightarrow> (\<forall>lm \<in> set (hs ! nat (int (length hs) + hand_no)). \<forall>im. shape im = [h, w, c] \<longrightarrow>
           (\<exists>b. circle ext im (py_int (lm_x lm * real w), py_int (lm_y lm * real h))
                   draw_radius = Inr b))"
  shows "fst (find_position ext self hp img hand_no draw draw_radius)
           = Inr (map (\<lambda>(idx, lm). [PInt (int idx), PInt (py_int (lm_x lm * real w)),
                                     PInt (py_int (lm_y lm * real h))])
                    (enumerate 0 (hs ! nat (int (length hs) + hand_no))))
       \<and> (hand_no = - 1 \<longrightarrow> hs ! nat (int (length hs) + hand_no) = last hs)
       \<and> (hs ! nat (int (length hs) + hand_no) \<noteq> []
            \<longrightarrow> fst (find_position ext self hp img hand_no draw draw_radius) \<noteq> Inr [])"
proof -
  let ?hand = "hs ! nat (int (length hs) + hand_no)"
  obtain res where res: "results self = Some res" "multi_hand_landmarks res = Some hs"
    using assms(1,2) by (auto simp: detected_hands_def split: option.splits)
  have idx: "py_index hs hand_no = Inr ?hand"
    using assms(3,4) by (simp add: py_index_def)
  have circles: "draw \<longrightarrow> (\<forall>p \<in> set (enumerate 0 ?hand). \<forall>im. shape im = [h, w, c] \<longrightarrow>
           (\<exists>b. circle ext im (py_int (lm_x (snd p) * real w), py_int (lm_y (snd p) * real h))
                   draw_radius = Inr b))"
    using assms(7) by (auto simp: in_set_enumerate_eq)
  have "find_position ext self hp img hand_no draw draw_radius =
          (case position_loop ext img draw draw_radius (enumerate 0 ?hand) [] hp of
             (r, hp1) \<Rightarrow> (r, self, hp1))"
    using res assms(2,4) idx by (simp add: find_position_def)
  then have "fst (find_position ext self hp img hand_no draw draw_radius) =
          fst (position_loop ext img draw draw_radius (enumerate 0 ?hand) [] hp)"
    by (simp add: case_prod_beta)
  then have run: "fst (find_position ext self hp img hand_no draw draw_radius)
           = Inr (map (\<lambda>(idx, lm). [PInt (int idx), PInt (py_int (lm_x lm * real w)),
                                     PInt (py_int (lm_y lm * real h))])
                    (enumerate 0 ?hand))"
    using position_loop_eq [OF assms(5) assms(6) circles, of "[]"] by simp
  have last: "hand_no = - 1 \<longrightarrow> ?hand = last hs"
    using assms(2) by (auto simp: last_conv_nth nat_diff_distrib')
  from run last show ?thesis by (auto simp: enumerate_eq_zip)
qed

text \<open>
  Two hands detected, index \<open>-1\<close>, drawing on, with a \<open>circle\<close> that raises on far-away
  centres.
\<close>

theorem find_position_negative_index_witness:
  "fst (find_position marking_externals (demo_detector [edge_hand, centre_hand]) [demo_image] 0 (- 1) True 5)
     = Inr (map (\<lambda>(idx, lm). [PInt (int idx), PInt (py_int (lm_x lm * real 2)),
                               PInt (py_int (lm_y lm * real 1))])
              (enumerate 0 centre_hand))
   \<and> fst (find_position marking_externals (demo_detector [edge_hand, centre_hand]) [demo_image] 0 (- 1) True 5)
     \<noteq> Inr []
   \<and> last [edge_hand, centre_hand] = centre_hand
   \<and> circle marking_externals demo_image (2 ^ 31, 0) 5 = Inl Cv2Error"
proof -
  have 1: "detected_hands (demo_detector [edge_hand, centre_hand]) = [edge_hand, centre_hand]" by simp
  have 2: "[edge_hand, centre_hand] \<noteq> []" by simp
  have 3: "- int (length [edge_hand, centre_hand]) \<le> - 1" by simp
  have 4: "(- 1 :: int) < 0" by simp
  have 5: "(0::nat) < length [demo_image]" by simp
  have 6: "shape ([demo_image] ! 0) = [1, 2, 3]" by simp
  have 8: "[edge_hand, centre_hand] ! nat (int (length [edge_hand, centre_hand]) + - 1) = centre_hand"
    by simp
  have 7: "True \<longrightarrow> (\<forall>lm \<in> set ([edge_hand, centre_hand] ! nat (int (length [edge_hand, centre_hand]) + - 1)).
             \<forall>im. shape im = [1, 2, 3] \<longrightarrow>
           (\<exists>b. circle marking_externals im (py_int (lm_x lm * real 2), py_int (lm_y lm * real 1)) 5 = Inr b))"
    unfolding 8 by (simp add: marking_externals_def centre_hand_def py_int_def)
  have 9: "centre_hand \<noteq> []" by (simp add: centre_hand_def)
  then have 10: "enumerate 0 centre_hand \<noteq> []"
    by (metis length_enumerate length_0_conv)
  have 11: "circle marking_externals demo_image (2 ^ 31, 0) 5 = Inl Cv2Error"
    by (simp add: marking_externals_def)
  from find_position_negative_index [OF 1 2 3 4 5 6 7] 8 9 10 11 show ?thesis
    by simp
qed

end
